theory Spec2Isabelle
  imports Main "HOL-Library.AList"
begin

section \<open>The term languages L3 (source) and L2 (target)\<close>

text \<open>
  The module \<^verbatim>\<open>L3.syntax\<close> declares the closed set of term classes that
  \<^verbatim>\<open>check.py\<close> and \<^verbatim>\<open>eliminate_letrec.py\<close> match on; \<^verbatim>\<open>L2.syntax\<close> declares
  the same classes without \<^verbatim>\<open>LetRec\<close>. Identifiers and operators are strings, literal
  values, counts and indices are Python integers. The constructors carry the module
  alias of the source (\<^verbatim>\<open>L3.Let\<close>, \<^verbatim>\<open>L2.Let\<close>) as a prefix.
\<close>

type_synonym Identifier = string

datatype L3_Term =
    L3_Let "(Identifier \<times> L3_Term) list" L3_Term
  | L3_LetRec "(Identifier \<times> L3_Term) list" L3_Term
  | L3_Reference Identifier
  | L3_Abstract "Identifier list" L3_Term
  | L3_Apply L3_Term "L3_Term list"
  | L3_Immediate int
  | L3_Primitive string L3_Term L3_Term
  | L3_Branch string L3_Term L3_Term L3_Term L3_Term
  | L3_Allocate int
  | L3_Load L3_Term int
  | L3_Store L3_Term int L3_Term
  | L3_Begin "L3_Term list" L3_Term

datatype L2_Term =
    L2_Let "(Identifier \<times> L2_Term) list" L2_Term
  | L2_Reference Identifier
  | L2_Abstract "Identifier list" L2_Term
  | L2_Apply L2_Term "L2_Term list"
  | L2_Immediate int
  | L2_Primitive string L2_Term L2_Term
  | L2_Branch string L2_Term L2_Term L2_Term L2_Term
  | L2_Allocate int
  | L2_Load L2_Term int
  | L2_Store L2_Term int L2_Term
  | L2_Begin "L2_Term list" L2_Term

datatype L3_Program = L3_Program (L3_parameters: "Identifier list") (L3_body: L3_Term)

datatype L2_Program = L2_Program (L2_parameters: "Identifier list") (L2_body: L2_Term)

section \<open>Contexts\<close>

text \<open>
  \<^verbatim>\<open>type Context = Mapping[Identifier, None]\<close>: a dictionary whose values are all
  \<^verbatim>\<open>None\<close>. \<^verbatim>\<open>dict.fromkeys(names, None)\<close> inserts the names one after the other,
  \<^verbatim>\<open>{**context, **local}\<close> is the right-biased merge, \<^verbatim>\<open>name in context\<close> is
  membership in the domain.
\<close>

type_synonym Context = "Identifier \<rightharpoonup> unit"

definition fromkeys :: "Identifier list \<Rightarrow> Context" where
  "fromkeys names = foldl (\<lambda>d name. d(name \<mapsto> ())) Map.empty names"

section \<open>The scope checker (check.py)\<close>

text \<open>
  \<^verbatim>\<open>Counter(names)\<close> counts in one pass, \<^verbatim>\<open>self[elem] = self.get(elem, 0) + 1\<close>;
  its items come in the order of first insertion.
\<close>

definition count_elem :: "(Identifier \<times> nat) list \<Rightarrow> Identifier \<Rightarrow> (Identifier \<times> nat) list" where
  "count_elem counts elem =
     AList.update elem ((case map_of counts elem of None \<Rightarrow> 0 | Some c \<Rightarrow> c) + 1) counts"

definition Counter :: "Identifier list \<Rightarrow> (Identifier \<times> nat) list" where
  "Counter names = foldl count_elem [] names"

text \<open>
  Every violation is a \<^verbatim>\<open>ValueError\<close> in the source, told apart by its message:
  \<^verbatim>\<open>duplicate binders: {duplicates}\<close> (a dictionary from name to count),
  \<^verbatim>\<open>duplicate parameters: {duplicates}\<close> (a set of names) and
  \<^verbatim>\<open>unknown variable: {name}\<close>.
\<close>

datatype error =
    DuplicateBinder "(Identifier \<times> nat) list"
  | DuplicateParameter "Identifier set"
  | UnboundVariable Identifier

text \<open>Statements in sequence: the second runs only when the first did not raise.\<close>

definition and_then :: "error + unit \<Rightarrow> error + unit \<Rightarrow> error + unit" where
  "and_then r k = (case r of Inl e \<Rightarrow> Inl e | Inr _ \<Rightarrow> k)"

text \<open>A \<^verbatim>\<open>for\<close> loop over a list whose body may raise.\<close>

fun for_each :: "('a \<Rightarrow> error + unit) \<Rightarrow> 'a list \<Rightarrow> error + unit" where
  "for_each f [] = Inr ()"
| "for_each f (x # xs) = and_then (f x) (for_each f xs)"

lemma for_each_cong [fundef_cong]:
  "xs = ys \<Longrightarrow> (\<And>x. x \<in> set ys \<Longrightarrow> f x = g x) \<Longrightarrow> for_each f xs = for_each g ys"
  by (induction ys arbitrary: xs) auto

fun check_term :: "L3_Term \<Rightarrow> Context \<Rightarrow> error + unit" where
  "check_term (L3_Let bindings body) context =
     (let counts = Counter (map fst bindings);
          duplicates = filter (\<lambda>(name, count). 1 < count) counts
      in if duplicates \<noteq> [] then Inl (DuplicateBinder duplicates)
         else and_then (for_each (\<lambda>(_, value). check_term value context) bindings)
                (let local = fromkeys (map fst bindings)
                 in check_term body (context ++ local)))"
| "check_term (L3_LetRec bindings body) context =
     (let counts = Counter (map fst bindings);
          duplicates = filter (\<lambda>(name, count). 1 < count) counts
      in if duplicates \<noteq> [] then Inl (DuplicateBinder duplicates)
         else (let local = fromkeys (map fst bindings)
               in and_then (for_each (\<lambda>(_, value). check_term value (context ++ local)) bindings)
                    (check_term body (context ++ local))))"
| "check_term (L3_Reference name) context =
     (if name \<notin> dom context then Inl (UnboundVariable name) else Inr ())"
| "check_term (L3_Abstract parameters body) context =
     (let counts = Counter parameters;
          duplicates = set (map fst (filter (\<lambda>(name, count). 1 < count) counts))
      in if duplicates \<noteq> {} then Inl (DuplicateParameter duplicates)
         else (let local = fromkeys parameters
               in check_term body (context ++ local)))"
| "check_term (L3_Apply target arguments) context =
     and_then (check_term target context)
       (for_each (\<lambda>argument. check_term argument context) arguments)"
| "check_term (L3_Immediate _) context = Inr ()"
| "check_term (L3_Primitive _ left right) context =
     and_then (check_term left context) (check_term right context)"
| "check_term (L3_Branch _ left right consequent otherwise) context =
     and_then (check_term left context)
       (and_then (check_term right context)
          (and_then (check_term consequent context) (check_term otherwise context)))"
| "check_term (L3_Allocate _) context = Inr ()"
| "check_term (L3_Load base _) context = check_term base context"
| "check_term (L3_Store base _ value) context =
     and_then (check_term base context) (check_term value context)"
| "check_term (L3_Begin effects value) context =
     and_then (for_each (\<lambda>effect. check_term effect context) effects)
       (check_term value context)"

fun check_program :: "L3_Program \<Rightarrow> error + unit" where
  "check_program (L3_Program parameters body) =
     (let counts = Counter parameters;
          duplicates = set (map fst (filter (\<lambda>(name, count). 1 < count) counts))
      in if duplicates \<noteq> {} then Inl (DuplicateParameter duplicates)
         else (let local = fromkeys parameters
               in check_term body local))"

section \<open>The letrec eliminator (eliminate_letrec.py)\<close>

text \<open>
  The final \<^verbatim>\<open>raise TypeError\<close> of the source is reached only by an object that is
  no \<^verbatim>\<open>L3.Term\<close>; the match is exhaustive on the term classes, so on terms the function
  always returns a target term.
\<close>

fun eliminate_letrec_term :: "L3_Term \<Rightarrow> Context \<Rightarrow> L2_Term" where
  "eliminate_letrec_term (L3_Let bindings body) context =
     L2_Let (map (\<lambda>(name, value). (name, eliminate_letrec_term value context)) bindings)
       (eliminate_letrec_term body context)"
| "eliminate_letrec_term (L3_LetRec bindings body) context =
     (let rec_names = map fst bindings;
          rec_ctx = context ++ fromkeys rec_names;
          alloc_bindings = map (\<lambda>(name, _). (name, L2_Allocate 1)) bindings;
          effects = map (\<lambda>(name, value).
                      L2_Store (L2_Reference name) 0 (eliminate_letrec_term value rec_ctx)) bindings;
          new_body = eliminate_letrec_term body rec_ctx
      in L2_Let alloc_bindings (L2_Begin effects new_body))"
| "eliminate_letrec_term (L3_Reference name) context =
     (if name \<in> dom context then L2_Load (L2_Reference name) 0 else L2_Reference name)"
| "eliminate_letrec_term (L3_Abstract parameters body) context =
     L2_Abstract parameters (eliminate_letrec_term body context)"
| "eliminate_letrec_term (L3_Apply target arguments) context =
     L2_Apply (eliminate_letrec_term target context)
       (map (\<lambda>a. eliminate_letrec_term a context) arguments)"
| "eliminate_letrec_term (L3_Immediate value) context = L2_Immediate value"
| "eliminate_letrec_term (L3_Primitive operator left right) context =
     L2_Primitive operator (eliminate_letrec_term left context)
       (eliminate_letrec_term right context)"
| "eliminate_letrec_term (L3_Branch operator left right consequent otherwise) context =
     L2_Branch operator (eliminate_letrec_term left context)
       (eliminate_letrec_term right context)
       (eliminate_letrec_term consequent context)
       (eliminate_letrec_term otherwise context)"
| "eliminate_letrec_term (L3_Allocate count) context = L2_Allocate count"
| "eliminate_letrec_term (L3_Load base index) context =
     L2_Load (eliminate_letrec_term base context) index"
| "eliminate_letrec_term (L3_Store base index value) context =
     L2_Store (eliminate_letrec_term base context) index
       (eliminate_letrec_term value context)"
| "eliminate_letrec_term (L3_Begin effects value) context =
     L2_Begin (map (\<lambda>e. eliminate_letrec_term e context) effects)
       (eliminate_letrec_term value context)"

fun eliminate_letrec_program :: "L3_Program \<Rightarrow> L2_Program" where
  "eliminate_letrec_program (L3_Program parameters body) =
     L2_Program parameters (eliminate_letrec_term body Map.empty)"

section \<open>Notions used to state the properties\<close>

text \<open>
  The target grammar is the source grammar without \<^verbatim>\<open>LetRec\<close>: every target term
  reads as a source term of the same shape, field by field.
\<close>

fun as_L3 :: "L2_Term \<Rightarrow> L3_Term" where
  "as_L3 (L2_Let bindings body) = L3_Let (map (\<lambda>(name, value). (name, as_L3 value)) bindings) (as_L3 body)"
| "as_L3 (L2_Reference name) = L3_Reference name"
| "as_L3 (L2_Abstract parameters body) = L3_Abstract parameters (as_L3 body)"
| "as_L3 (L2_Apply target arguments) = L3_Apply (as_L3 target) (map as_L3 arguments)"
| "as_L3 (L2_Immediate value) = L3_Immediate value"
| "as_L3 (L2_Primitive operator left right) = L3_Primitive operator (as_L3 left) (as_L3 right)"
| "as_L3 (L2_Branch operator left right consequent otherwise) =
     L3_Branch operator (as_L3 left) (as_L3 right) (as_L3 consequent) (as_L3 otherwise)"
| "as_L3 (L2_Allocate count) = L3_Allocate count"
| "as_L3 (L2_Load base index) = L3_Load (as_L3 base) index"
| "as_L3 (L2_Store base index value) = L3_Store (as_L3 base) index (as_L3 value)"
| "as_L3 (L2_Begin effects value) = L3_Begin (map as_L3 effects) (as_L3 value)"

text \<open>A term contains a \<^verbatim>\<open>LetRec\<close> node somewhere in its tree.\<close>

fun has_letrec :: "L3_Term \<Rightarrow> bool" where
  "has_letrec (L3_Let bindings body) = (list_ex (\<lambda>(_, value). has_letrec value) bindings \<or> has_letrec body)"
| "has_letrec (L3_LetRec bindings body) = True"
| "has_letrec (L3_Reference name) = False"
| "has_letrec (L3_Abstract parameters body) = has_letrec body"
| "has_letrec (L3_Apply target arguments) = (has_letrec target \<or> list_ex has_letrec arguments)"
| "has_letrec (L3_Immediate value) = False"
| "has_letrec (L3_Primitive operator left right) = (has_letrec left \<or> has_letrec right)"
| "has_letrec (L3_Branch operator left right consequent otherwise) =
     (has_letrec left \<or> has_letrec right \<or> has_letrec consequent \<or> has_letrec otherwise)"
| "has_letrec (L3_Allocate count) = False"
| "has_letrec (L3_Load base index) = has_letrec base"
| "has_letrec (L3_Store base index value) = (has_letrec base \<or> has_letrec value)"
| "has_letrec (L3_Begin effects value) = (list_ex has_letrec effects \<or> has_letrec value)"

text \<open>
  A term contains, somewhere in its tree, a \<^verbatim>\<open>Let\<close> or \<^verbatim>\<open>LetRec\<close> with a repeated
  binder name or an \<^verbatim>\<open>Abstract\<close> with a repeated parameter name; for a program, its own
  parameter list counts too.
\<close>

fun has_duplicate :: "L3_Term \<Rightarrow> bool" where
  "has_duplicate (L3_Let bindings body) =
     (\<not> distinct (map fst bindings) \<or> list_ex (\<lambda>(_, value). has_duplicate value) bindings
      \<or> has_duplicate body)"
| "has_duplicate (L3_LetRec bindings body) =
     (\<not> distinct (map fst bindings) \<or> list_ex (\<lambda>(_, value). has_duplicate value) bindings
      \<or> has_duplicate body)"
| "has_duplicate (L3_Reference name) = False"
| "has_duplicate (L3_Abstract parameters body) = (\<not> distinct parameters \<or> has_duplicate body)"
| "has_duplicate (L3_Apply target arguments) = (has_duplicate target \<or> list_ex has_duplicate arguments)"
| "has_duplicate (L3_Immediate value) = False"
| "has_duplicate (L3_Primitive operator left right) = (has_duplicate left \<or> has_duplicate right)"
| "has_duplicate (L3_Branch operator left right consequent otherwise) =
     (has_duplicate left \<or> has_duplicate right \<or> has_duplicate consequent \<or> has_duplicate otherwise)"
| "has_duplicate (L3_Allocate count) = False"
| "has_duplicate (L3_Load base index) = has_duplicate base"
| "has_duplicate (L3_Store base index value) = (has_duplicate base \<or> has_duplicate value)"
| "has_duplicate (L3_Begin effects value) = (list_ex has_duplicate effects \<or> has_duplicate value)"

fun has_duplicate_program :: "L3_Program \<Rightarrow> bool" where
  "has_duplicate_program (L3_Program parameters body) = (\<not> distinct parameters \<or> has_duplicate body)"

text \<open>
  The references of a term that no enclosing binder binds, in the order the checker
  visits them. This follows the scoping rules as the specification words them, not the
  checker: the values of a \<^verbatim>\<open>Let\<close> see the names visible outside it, the values of a
  \<^verbatim>\<open>LetRec\<close> and the bodies of \<^verbatim>\<open>Let\<close> and \<^verbatim>\<open>LetRec\<close> see all binders of the
  construct as well, the body of an \<^verbatim>\<open>Abstract\<close> sees its parameters, and the body of
  a program sees the program's parameters.
\<close>

fun unbound_references :: "L3_Term \<Rightarrow> Identifier set \<Rightarrow> Identifier list" where
  "unbound_references (L3_Let bindings body) visible =
     concat (map (\<lambda>(_, value). unbound_references value visible) bindings)
     @ unbound_references body (visible \<union> set (map fst bindings))"
| "unbound_references (L3_LetRec bindings body) visible =
     concat (map (\<lambda>(_, value). unbound_references value (visible \<union> set (map fst bindings))) bindings)
     @ unbound_references body (visible \<union> set (map fst bindings))"
| "unbound_references (L3_Reference name) visible = (if name \<in> visible then [] else [name])"
| "unbound_references (L3_Abstract parameters body) visible =
     unbound_references body (visible \<union> set parameters)"
| "unbound_references (L3_Apply target arguments) visible =
     unbound_references target visible
     @ concat (map (\<lambda>argument. unbound_references argument visible) arguments)"
| "unbound_references (L3_Immediate value) visible = []"
| "unbound_references (L3_Primitive operator left right) visible =
     unbound_references left visible @ unbound_references right visible"
| "unbound_references (L3_Branch operator left right consequent otherwise) visible =
     unbound_references left visible @ unbound_references right visible
     @ unbound_references consequent visible @ unbound_references otherwise visible"
| "unbound_references (L3_Allocate count) visible = []"
| "unbound_references (L3_Load base index) visible = unbound_references base visible"
| "unbound_references (L3_Store base index value) visible =
     unbound_references base visible @ unbound_references value visible"
| "unbound_references (L3_Begin effects value) visible =
     concat (map (\<lambda>effect. unbound_references effect visible) effects)
     @ unbound_references value visible"

fun unbound_references_program :: "L3_Program \<Rightarrow> Identifier list" where
  "unbound_references_program (L3_Program parameters body) = unbound_references body (set parameters)"

text \<open>The outcome of a check that stops at the first of the given unbound names.\<close>

fun verdict :: "Identifier list \<Rightarrow> error + unit" where
  "verdict [] = Inr ()"
| "verdict (name # _) = Inl (UnboundVariable name)"

section \<open>Auxiliary facts\<close>

lemma foldl_upd_dom: "dom (foldl (\<lambda>d name. d(name \<mapsto> ())) m names) = dom m \<union> set names"
  by (induction names arbitrary: m) auto

lemma dom_fromkeys: "dom (fromkeys names) = set names"
  by (simp add: fromkeys_def foldl_upd_dom)

lemma and_then_Inr: "and_then r k = Inr u \<longleftrightarrow> r = Inr () \<and> k = Inr ()"
  by (cases r) (auto simp: and_then_def)

lemma for_each_Inr: "for_each f xs = Inr u \<longleftrightarrow> (\<forall>x \<in> set xs. f x = Inr ())"
  by (induction xs) (auto simp: and_then_Inr)

lemma distinct_count_elem: "distinct (map fst counts) \<Longrightarrow> distinct (map fst (count_elem counts elem))"
  by (simp add: count_elem_def distinct_update)

lemma map_of_count_elem:
  "map_of (count_elem counts elem) n =
     (if n = elem then Some ((case map_of counts elem of None \<Rightarrow> 0 | Some c \<Rightarrow> c) + 1) else map_of counts n)"
  by (simp add: count_elem_def update_conv')

lemma foldl_count_elem:
  "distinct (map fst acc) \<Longrightarrow>
   distinct (map fst (foldl count_elem acc names)) \<and>
   (\<forall>n. map_of (foldl count_elem acc names) n =
      (if n \<in> set names then Some ((case map_of acc n of None \<Rightarrow> 0 | Some c \<Rightarrow> c) + count_list names n)
       else map_of acc n))"
proof (induction names arbitrary: acc)
  case Nil
  then show ?case by simp
next
  case (Cons a names)
  have d: "distinct (map fst (count_elem acc a))" using Cons.prems by (rule distinct_count_elem)
  show ?case using Cons.IH[OF d]
    by (auto simp: map_of_count_elem)
qed

lemma map_of_Counter:
  "map_of (Counter names) n = (if n \<in> set names then Some (count_list names n) else None)"
  using foldl_count_elem[of "[]" names] by (simp add: Counter_def)

lemma distinct_Counter: "distinct (map fst (Counter names))"
  using foldl_count_elem[of "[]" names] by (simp add: Counter_def)

lemma Counter_mem: "(n, c) \<in> set (Counter names) \<longleftrightarrow> n \<in> set names \<and> c = count_list names n"
proof -
  have "(n, c) \<in> set (Counter names) \<longleftrightarrow> map_of (Counter names) n = Some c"
    using distinct_Counter[of names] by simp
  then show ?thesis by (auto simp: map_of_Counter)
qed

lemma distinct_iff_count_le: "distinct xs \<longleftrightarrow> (\<forall>x \<in> set xs. count_list xs x \<le> 1)"
proof (induction xs)
  case Nil
  then show ?case by simp
next
  case (Cons a xs)
  show ?case
  proof (cases "a \<in> set xs")
    case True
    then have "count_list xs a \<noteq> 0" by (simp add: count_list_0_iff)
    with True show ?thesis by auto
  next
    case False
    then have "count_list xs a = 0" by (simp add: count_list_0_iff)
    with False Cons.IH show ?thesis by auto
  qed
qed

lemma no_duplicates_iff:
  "filter (\<lambda>(name, count). 1 < count) (Counter names) = [] \<longleftrightarrow> distinct names"
proof -
  have "filter (\<lambda>(name, count). 1 < count) (Counter names) = [] \<longleftrightarrow>
        (\<forall>n c. (n, c) \<in> set (Counter names) \<longrightarrow> c \<le> 1)"
    by (fastforce simp: filter_empty_conv not_less)
  also have "\<dots> \<longleftrightarrow> (\<forall>n \<in> set names. count_list names n \<le> 1)"
    by (auto simp: Counter_mem)
  finally show ?thesis by (simp only: distinct_iff_count_le)
qed

lemma no_duplicate_set_iff:
  "set (map fst (filter (\<lambda>(name, count). 1 < count) (Counter names))) = {} \<longleftrightarrow> distinct names"
  by (simp only: set_empty map_is_Nil_conv no_duplicates_iff)


lemma check_term_Let_distinct:
  "distinct (map fst bindings) \<Longrightarrow>
   check_term (L3_Let bindings body) C =
     and_then (for_each (\<lambda>(_, value). check_term value C) bindings)
       (check_term body (C ++ fromkeys (map fst bindings)))"
  by (simp del: One_nat_def add: Let_def no_duplicates_iff)

lemma check_term_LetRec_distinct:
  "distinct (map fst bindings) \<Longrightarrow>
   check_term (L3_LetRec bindings body) C =
     and_then (for_each (\<lambda>(_, value). check_term value (C ++ fromkeys (map fst bindings))) bindings)
       (check_term body (C ++ fromkeys (map fst bindings)))"
  by (simp del: One_nat_def add: Let_def no_duplicates_iff)

lemma check_term_Abstract_distinct:
  "distinct parameters \<Longrightarrow>
   check_term (L3_Abstract parameters body) C = check_term body (C ++ fromkeys parameters)"
  by (simp only: check_term.simps Let_def no_duplicate_set_iff) simp

lemma check_program_distinct:
  "distinct parameters \<Longrightarrow>
   check_program (L3_Program parameters body) = check_term body (fromkeys parameters)"
  by (simp only: check_program.simps Let_def no_duplicate_set_iff) simp

lemma check_term_Let_dup:
  "\<not> distinct (map fst bindings) \<Longrightarrow> \<exists>e. check_term (L3_Let bindings body) C = Inl e"
  by (simp del: One_nat_def add: Let_def no_duplicates_iff)

lemma check_term_LetRec_dup:
  "\<not> distinct (map fst bindings) \<Longrightarrow> \<exists>e. check_term (L3_LetRec bindings body) C = Inl e"
  by (simp del: One_nat_def add: Let_def no_duplicates_iff)

lemma check_term_Abstract_dup:
  "\<not> distinct parameters \<Longrightarrow> \<exists>e. check_term (L3_Abstract parameters body) C = Inl e"
  by (simp only: check_term.simps Let_def no_duplicate_set_iff) simp

lemma check_program_dup:
  "\<not> distinct parameters \<Longrightarrow> \<exists>e. check_program (L3_Program parameters body) = Inl e"
  by (simp only: check_program.simps Let_def no_duplicate_set_iff) simp

lemmas eval_simps = Counter_def count_elem_def fromkeys_def and_then_def Let_def map_add_def domIff

lemma dom_extend: "dom (C ++ fromkeys names) = dom C \<union> set names"
  by (simp add: dom_fromkeys Un_commute)

lemma and_then_Inl: "and_then r k = Inl e \<longleftrightarrow> r = Inl e \<or> (r = Inr () \<and> k = Inl e)"
  by (cases r) (auto simp: and_then_def)

lemma for_each_Inl: "for_each f xs = Inl e \<Longrightarrow> \<exists>x \<in> set xs. f x = Inl e"
  by (induction xs) (auto simp: and_then_Inl)

lemma not_Inr_iff: "r \<noteq> Inr () \<longleftrightarrow> (\<exists>e. r = Inl e)"
  by (cases r) auto

lemma has_duplicate_rejected: "check_term t C = Inr () \<Longrightarrow> \<not> has_duplicate t"
proof (induction t arbitrary: C)
  case (L3_Let bindings body)
  show ?case
  proof (cases "distinct (map fst bindings)")
    case True
    from L3_Let.prems have
      a: "\<forall>x \<in> set bindings. (case x of (_, value) \<Rightarrow> check_term value C) = Inr ()"
      and b: "check_term body (C ++ fromkeys (map fst bindings)) = Inr ()"
      by (auto simp del: check_term.simps simp add: check_term_Let_distinct[OF True] and_then_Inr for_each_Inr)
    have "\<not> has_duplicate v" if "(n, v) \<in> set bindings" for n v
      using a that L3_Let.IH(1)[of "(n, v)" v C] by fastforce
    with True L3_Let.IH(2)[OF b] show ?thesis by (auto simp: list_ex_iff)
  next
    case False
    from check_term_Let_dup[OF False, of body C] L3_Let.prems show ?thesis by auto
  qed
next
  case (L3_LetRec bindings body)
  show ?case
  proof (cases "distinct (map fst bindings)")
    case True
    from L3_LetRec.prems have
      a: "\<forall>x \<in> set bindings. (case x of (_, value) \<Rightarrow> check_term value (C ++ fromkeys (map fst bindings))) = Inr ()"
      and b: "check_term body (C ++ fromkeys (map fst bindings)) = Inr ()"
      by (auto simp del: check_term.simps simp add: check_term_LetRec_distinct[OF True] and_then_Inr for_each_Inr)
    have "\<not> has_duplicate v" if "(n, v) \<in> set bindings" for n v
      using a that L3_LetRec.IH(1)[of "(n, v)" v "C ++ fromkeys (map fst bindings)"] by fastforce
    with True L3_LetRec.IH(2)[OF b] show ?thesis by (auto simp: list_ex_iff)
  next
    case False
    from check_term_LetRec_dup[OF False, of body C] L3_LetRec.prems show ?thesis by auto
  qed
next
  case (L3_Abstract parameters body)
  show ?case
  proof (cases "distinct parameters")
    case True
    with L3_Abstract show ?thesis
      by (simp del: check_term.simps add: check_term_Abstract_distinct)
  next
    case False
    from check_term_Abstract_dup[OF False, of body C] L3_Abstract.prems show ?thesis by auto
  qed
qed (auto simp: and_then_Inr for_each_Inr list_ex_iff)

lemma has_duplicate_program_rejected: "has_duplicate_program p \<Longrightarrow> \<exists>e. check_program p = Inl e"
proof (cases p)
  case (L3_Program parameters body)
  assume h: "has_duplicate_program p"
  show ?thesis
  proof (cases "distinct parameters")
    case True
    with h L3_Program have "has_duplicate body" by simp
    then have "check_term body (fromkeys parameters) \<noteq> Inr ()"
      using has_duplicate_rejected by blast
    then show ?thesis
      unfolding L3_Program check_program_distinct[OF True] by (simp only: not_Inr_iff)
  next
    case False
    then show ?thesis unfolding L3_Program by (rule check_program_dup)
  qed
qed

lemma verdict_append: "and_then (verdict xs) (verdict ys) = verdict (xs @ ys)"
  by (cases xs) (auto simp: and_then_def)

lemma for_each_verdict:
  "(\<And>x. x \<in> set xs \<Longrightarrow> f x = verdict (g x)) \<Longrightarrow> for_each f xs = verdict (concat (map g xs))"
proof (induction xs)
  case Nil
  then show ?case by simp
next
  case (Cons x xs)
  then show ?case by (simp add: verdict_append)
qed

lemma check_term_Let_dup_val:
  "\<not> distinct (map fst bindings) \<Longrightarrow> \<exists>d. check_term (L3_Let bindings body) C = Inl (DuplicateBinder d)"
  by (simp del: One_nat_def add: Let_def no_duplicates_iff)

lemma check_term_LetRec_dup_val:
  "\<not> distinct (map fst bindings) \<Longrightarrow> \<exists>d. check_term (L3_LetRec bindings body) C = Inl (DuplicateBinder d)"
  by (simp del: One_nat_def add: Let_def no_duplicates_iff)

lemma check_term_Abstract_dup_val:
  "\<not> distinct parameters \<Longrightarrow> \<exists>d. check_term (L3_Abstract parameters body) C = Inl (DuplicateParameter d)"
  by (simp only: check_term.simps Let_def no_duplicate_set_iff) simp

lemma check_program_dup_val:
  "\<not> distinct parameters \<Longrightarrow> \<exists>d. check_program (L3_Program parameters body) = Inl (DuplicateParameter d)"
  by (simp only: check_program.simps Let_def no_duplicate_set_iff) simp

lemma check_term_no_duplicate:
  "\<not> has_duplicate t \<Longrightarrow> check_term t C = verdict (unbound_references t (dom C))"
proof (induction t arbitrary: C)
  case (L3_Let bindings body)
  then have d: "distinct (map fst bindings)" by simp
  have v: "(case x of (_, value) \<Rightarrow> check_term value C) =
           verdict (case x of (_, value) \<Rightarrow> unbound_references value (dom C))"
    if "x \<in> set bindings" for x
  proof -
    obtain n val where x: "x = (n, val)" by (cases x)
    have "\<not> has_duplicate val" using that L3_Let.prems x by (auto simp: list_ex_iff)
    with L3_Let.IH(1)[of x val C] that show ?thesis by (simp add: x)
  qed
  have "\<not> has_duplicate body" using L3_Let.prems by simp
  from L3_Let.IH(2)[OF this, of "C ++ fromkeys (map fst bindings)", unfolded dom_extend]
  have b: "check_term body (C ++ fromkeys (map fst bindings)) =
           verdict (unbound_references body (dom C \<union> set (map fst bindings)))" .
  show ?case
    by (simp only: check_term_Let_distinct[OF d] for_each_verdict[of bindings, OF v] b
          verdict_append unbound_references.simps)
next
  case (L3_LetRec bindings body)
  then have d: "distinct (map fst bindings)" by simp
  have v: "(case x of (_, value) \<Rightarrow> check_term value (C ++ fromkeys (map fst bindings))) =
           verdict (case x of (_, value) \<Rightarrow> unbound_references value (dom C \<union> set (map fst bindings)))"
    if "x \<in> set bindings" for x
  proof -
    obtain n val where x: "x = (n, val)" by (cases x)
    have "\<not> has_duplicate val" using that L3_LetRec.prems x by (auto simp: list_ex_iff)
    with L3_LetRec.IH(1)[of x val "C ++ fromkeys (map fst bindings)", unfolded dom_extend] that
    show ?thesis by (simp add: x)
  qed
  have "\<not> has_duplicate body" using L3_LetRec.prems by simp
  from L3_LetRec.IH(2)[OF this, of "C ++ fromkeys (map fst bindings)", unfolded dom_extend]
  have b: "check_term body (C ++ fromkeys (map fst bindings)) =
           verdict (unbound_references body (dom C \<union> set (map fst bindings)))" .
  show ?case
    by (simp only: check_term_LetRec_distinct[OF d] for_each_verdict[of bindings, OF v] b
          verdict_append unbound_references.simps)
next
  case (L3_Reference name)
  show ?case by simp
next
  case (L3_Abstract parameters body)
  then have d: "distinct parameters" by simp
  have "\<not> has_duplicate body" using L3_Abstract.prems by simp
  from L3_Abstract.IH[OF this, of "C ++ fromkeys parameters", unfolded dom_extend]
  show ?case
    by (simp del: check_term.simps add: check_term_Abstract_distinct[OF d])
next
  case (L3_Apply target arguments)
  have a: "check_term x C = verdict (unbound_references x (dom C))" if "x \<in> set arguments" for x
    using that L3_Apply.prems L3_Apply.IH(2)[of x C] by (auto simp: list_ex_iff)
  show ?case
    using L3_Apply.prems L3_Apply.IH(1)[of C]
    by (simp add: for_each_verdict[of arguments, OF a] verdict_append)
next
  case (L3_Begin effects val)
  have a: "check_term x C = verdict (unbound_references x (dom C))" if "x \<in> set effects" for x
    using that L3_Begin.prems L3_Begin.IH(1)[of x C] by (auto simp: list_ex_iff)
  show ?case
    using L3_Begin.prems L3_Begin.IH(2)[of C]
    by (simp add: for_each_verdict[of effects, OF a] verdict_append)
qed (simp_all add: verdict_append)

lemma check_term_unbound_named:
  "check_term t C = Inl (UnboundVariable m) \<Longrightarrow> m \<in> set (unbound_references t (dom C))"
proof (induction t arbitrary: C)
  case (L3_Let bindings body)
  show ?case
  proof (cases "distinct (map fst bindings)")
    case True
    from L3_Let.prems consider
      (in_value) n v where "(n, v) \<in> set bindings" "check_term v C = Inl (UnboundVariable m)"
      | (in_body) "check_term body (C ++ fromkeys (map fst bindings)) = Inl (UnboundVariable m)"
      unfolding check_term_Let_distinct[OF True] and_then_Inl
      by (auto dest!: for_each_Inl)
    then show ?thesis
    proof cases
      case in_value
      from L3_Let.IH(1)[of "(n, v)" v C] in_value have "m \<in> set (unbound_references v (dom C))" by simp
      with in_value(1) show ?thesis by force
    next
      case in_body
      from L3_Let.IH(2)[OF in_body, unfolded dom_extend] show ?thesis by simp
    qed
  next
    case False
    from check_term_Let_dup_val[OF False, of body C] L3_Let.prems show ?thesis by auto
  qed
next
  case (L3_LetRec bindings body)
  show ?case
  proof (cases "distinct (map fst bindings)")
    case True
    from L3_LetRec.prems consider
      (in_value) n v where "(n, v) \<in> set bindings"
        "check_term v (C ++ fromkeys (map fst bindings)) = Inl (UnboundVariable m)"
      | (in_body) "check_term body (C ++ fromkeys (map fst bindings)) = Inl (UnboundVariable m)"
      unfolding check_term_LetRec_distinct[OF True] and_then_Inl
      by (auto dest!: for_each_Inl)
    then show ?thesis
    proof cases
      case in_value
      from L3_LetRec.IH(1)[of "(n, v)" v "C ++ fromkeys (map fst bindings)", unfolded dom_extend] in_value
      have "m \<in> set (unbound_references v (dom C \<union> set (map fst bindings)))"
        by simp
      with in_value(1) show ?thesis by force
    next
      case in_body
      from L3_LetRec.IH(2)[OF in_body, unfolded dom_extend] show ?thesis by simp
    qed
  next
    case False
    from check_term_LetRec_dup_val[OF False, of body C] L3_LetRec.prems show ?thesis by auto
  qed
next
  case (L3_Abstract parameters body)
  show ?case
  proof (cases "distinct parameters")
    case True
    with L3_Abstract.prems L3_Abstract.IH[of "C ++ fromkeys parameters", unfolded dom_extend]
    show ?thesis
      by (simp del: check_term.simps add: check_term_Abstract_distinct)
  next
    case False
    from check_term_Abstract_dup_val[OF False, of body C] L3_Abstract.prems show ?thesis by auto
  qed
next
  case (L3_Reference name)
  then show ?case by (simp split: if_splits)
qed (auto simp: and_then_Inl dest!: for_each_Inl)


lemma no_letrec_as_L3: "\<not> has_letrec (as_L3 t)"
  by (induction t) (auto simp: list_ex_iff)

lemma eliminate_no_letrec:
  "\<not> has_letrec t \<Longrightarrow> as_L3 (eliminate_letrec_term t Map.empty) = t"
  by (induction t) (auto simp: list_ex_iff intro!: map_idI)

lemma check_program_unbound_named:
  "check_program p = Inl (UnboundVariable m) \<Longrightarrow> m \<in> set (unbound_references_program p)"
proof (cases p)
  case (L3_Program parameters body)
  assume h: "check_program p = Inl (UnboundVariable m)"
  show ?thesis
  proof (cases "distinct parameters")
    case True
    from h have "check_term body (fromkeys parameters) = Inl (UnboundVariable m)"
      unfolding L3_Program check_program_distinct[OF True] .
    from check_term_unbound_named[OF this] show ?thesis
      unfolding L3_Program by (simp add: dom_fromkeys)
  next
    case False
    from check_program_dup_val[OF False, of body] h show ?thesis
      unfolding L3_Program by auto
  qed
qed

lemma check_program_no_duplicate:
  "\<not> has_duplicate_program p \<Longrightarrow> check_program p = verdict (unbound_references_program p)"
proof (cases p)
  case (L3_Program parameters body)
  assume "\<not> has_duplicate_program p"
  then have d: "distinct parameters" and b: "\<not> has_duplicate body"
    unfolding L3_Program by simp_all
  show ?thesis
    unfolding L3_Program check_program_distinct[OF d] check_term_no_duplicate[OF b]
    by (simp add: dom_fromkeys)
qed

lemma verdict_hd: "names \<noteq> [] \<Longrightarrow> verdict names = Inl (UnboundVariable (hd names))"
  by (cases names) simp_all

section \<open>Properties of the checker\<close>

text \<open>
  C1. The claim: \<^verbatim>\<open>check_term\<close> rejects a \<^verbatim>\<open>Let\<close> or \<^verbatim>\<open>LetRec\<close> whose binder, or an
  \<^verbatim>\<open>Abstract\<close> whose parameter, is already visible in the enclosing context. The
  docstring of \<^verbatim>\<open>check_term\<close> says the same (``cannot reuse an identifier already in
  scope''), but the function only counts repetitions inside the binding list itself:
  with \<^verbatim>\<open>x\<close> in the context, each of the three constructs binding \<^verbatim>\<open>x\<close> again is
  accepted.
\<close>

theorem check_term_accepts_shadowing:
  "check_term (L3_Let [(''x'', L3_Immediate 1)] (L3_Reference ''x'')) [''x'' \<mapsto> ()] = Inr ()
   \<and> check_term (L3_LetRec [(''x'', L3_Immediate 1)] (L3_Reference ''x'')) [''x'' \<mapsto> ()] = Inr ()
   \<and> check_term (L3_Abstract [''x''] (L3_Reference ''x'')) [''x'' \<mapsto> ()] = Inr ()"
  by (simp add: eval_simps)

text \<open>
  C5. For a \<^verbatim>\<open>LetRec\<close> with pairwise distinct binder names and any context \<open>C\<close>, the
  checker accepts exactly when every binding's value and the body are accepted under
  \<open>C\<close> extended with all binder names of this \<^verbatim>\<open>LetRec\<close>.
\<close>

theorem check_term_LetRec_scoping:
  "distinct (map fst bindings) \<Longrightarrow>
   check_term (L3_LetRec bindings body) C = Inr () \<longleftrightarrow>
     (\<forall>(name, value) \<in> set bindings. check_term value (C ++ fromkeys (map fst bindings)) = Inr ())
     \<and> check_term body (C ++ fromkeys (map fst bindings)) = Inr ()"
  by (auto simp del: check_term.simps simp add: check_term_LetRec_distinct and_then_Inr for_each_Inr)

theorem check_term_LetRec_scoping_witness:
  "distinct (map fst [(''f'', L3_Abstract [''x''] (L3_Apply (L3_Reference ''f'') [L3_Reference ''x'']))])
   \<and> check_term
        (L3_LetRec [(''f'', L3_Abstract [''x''] (L3_Apply (L3_Reference ''f'') [L3_Reference ''x'']))]
           (L3_Apply (L3_Reference ''f'') [L3_Immediate 0])) Map.empty = Inr ()"
proof -
  let ?bs = "[(''f'', L3_Abstract [''x''] (L3_Apply (L3_Reference ''f'') [L3_Reference ''x'']))]"
  have d: "distinct (map fst ?bs)" by simp
  have "check_term (L3_LetRec ?bs (L3_Apply (L3_Reference ''f'') [L3_Immediate 0])) Map.empty = Inr ()"
    by (rule iffD2[OF check_term_LetRec_scoping[OF d]]) (simp add: eval_simps)
  with d show ?thesis by blast
qed

text \<open>
  C6. For a \<^verbatim>\<open>Let\<close> with pairwise distinct binder names and any context \<open>C\<close>, every
  binding's value is checked under \<open>C\<close> itself and the body under \<open>C\<close> extended with
  all binder names. In \<^verbatim>\<open>Let([(x, Reference(x))], B)\<close> the reference to \<open>x\<close> is
  therefore looked up in the outer context only: it is unbound when \<open>x\<close> is not in
  \<open>C\<close>, whatever the new binder.
\<close>

theorem check_term_Let_scoping:
  "distinct (map fst bindings) \<Longrightarrow>
   (check_term (L3_Let bindings body) C = Inr () \<longleftrightarrow>
     (\<forall>(name, value) \<in> set bindings. check_term value C = Inr ())
     \<and> check_term body (C ++ fromkeys (map fst bindings)) = Inr ())
   \<and> check_term (L3_Let [(x, L3_Reference x)] B) C =
       (if x \<in> dom C then check_term B (C ++ fromkeys [x]) else Inl (UnboundVariable x))"
proof (intro conjI)
  assume d: "distinct (map fst bindings)"
  show "check_term (L3_Let bindings body) C = Inr () \<longleftrightarrow>
     (\<forall>(name, value) \<in> set bindings. check_term value C = Inr ())
     \<and> check_term body (C ++ fromkeys (map fst bindings)) = Inr ()"
    by (auto simp del: check_term.simps simp add: check_term_Let_distinct[OF d] and_then_Inr for_each_Inr)
next
  have s: "check_term (L3_Let [(x, L3_Reference x)] B) C =
     and_then (check_term (L3_Reference x) C) (check_term B (C ++ fromkeys [x]))"
    by (simp del: check_term.simps add: check_term_Let_distinct and_then_def split: sum.splits)
  show "check_term (L3_Let [(x, L3_Reference x)] B) C =
       (if x \<in> dom C then check_term B (C ++ fromkeys [x]) else Inl (UnboundVariable x))"
    unfolding s by (simp add: and_then_def)
qed

theorem check_term_Let_scoping_witness:
  "distinct (map fst [(''x'', L3_Reference ''x'')])
   \<and> check_term (L3_Let [(''x'', L3_Reference ''x'')] (L3_Reference ''x'')) [''x'' \<mapsto> ()] = Inr ()
   \<and> check_term (L3_Let [(''x'', L3_Reference ''x'')] (L3_Reference ''x'')) Map.empty =
       Inl (UnboundVariable ''x'')"
proof -
  let ?bs = "[(''x'', L3_Reference ''x'')]"
  have d: "distinct (map fst ?bs)" by simp
  note t = check_term_Let_scoping[OF d, of "L3_Reference ''x''" _ "''x''" "L3_Reference ''x''"]
  have a: "check_term (L3_Let ?bs (L3_Reference ''x'')) [''x'' \<mapsto> ()] = Inr ()"
    by (rule iffD2[OF conjunct1[OF t]]) (simp add: eval_simps)
  have b: "check_term (L3_Let ?bs (L3_Reference ''x'')) Map.empty = Inl (UnboundVariable ''x'')"
    by (simp only: conjunct2[OF t]) simp
  from d a b show ?thesis by blast
qed

text \<open>
  C7 as stated fails: a program with an unbound reference is rejected, but not always
  with \<^verbatim>\<open>UnboundVariable\<close> naming that reference. The checker stops at the first
  violation it meets, so with \<^verbatim>\<open>f\<close> and \<^verbatim>\<open>g\<close> both unbound only \<^verbatim>\<open>f\<close> is
  reported, and a repeated program parameter is reported before the body is looked at.
\<close>

theorem check_program_unbound_not_named:
  "''g'' \<in> set (unbound_references_program (L3_Program [] (L3_Begin [L3_Reference ''f''] (L3_Reference ''g''))))
   \<and> check_program (L3_Program [] (L3_Begin [L3_Reference ''f''] (L3_Reference ''g''))) \<noteq> Inl (UnboundVariable ''g'')
   \<and> ''f'' \<in> set (unbound_references_program (L3_Program [''x'', ''x''] (L3_Reference ''f'')))
   \<and> check_program (L3_Program [''x'', ''x''] (L3_Reference ''f'')) = Inl (DuplicateParameter {''x''})"
  by (simp add: eval_simps del: set_filter set_map)

text \<open>
  C7, amended. Every program that contains a reference bound by no enclosing
  \<^verbatim>\<open>Program\<close>, \<^verbatim>\<open>Let\<close>, \<^verbatim>\<open>LetRec\<close> or \<^verbatim>\<open>Abstract\<close> is rejected. When the
  violation reported is \<^verbatim>\<open>UnboundVariable\<close>, the name it carries is one of the unbound
  references of the program; and when no binding or parameter list of the program
  repeats a name, the violation is \<^verbatim>\<open>UnboundVariable\<close> of the first unbound reference
  in the order of the traversal. So \<^verbatim>\<open>Program([], Begin([Reference("f")], Immediate(0)))\<close>
  is rejected with \<^verbatim>\<open>UnboundVariable("f")\<close>.
\<close>

theorem check_program_rejects_unbound:
  "n \<in> set (unbound_references_program p) \<Longrightarrow>
     (\<exists>e. check_program p = Inl e
          \<and> (\<forall>m. e = UnboundVariable m \<longrightarrow> m \<in> set (unbound_references_program p)))
     \<and> (\<not> has_duplicate_program p \<longrightarrow>
          check_program p = Inl (UnboundVariable (hd (unbound_references_program p))))"
proof (intro conjI impI)
  assume n: "n \<in> set (unbound_references_program p)"
  then have ne: "unbound_references_program p \<noteq> []" by auto
  have "check_program p \<noteq> Inr ()"
  proof
    assume ok: "check_program p = Inr ()"
    have "\<not> has_duplicate_program p"
      using has_duplicate_program_rejected[of p] ok by auto
    from check_program_no_duplicate[OF this] ok ne show False
      by (simp add: verdict_hd)
  qed
  then obtain e where e: "check_program p = Inl e" by (auto simp: not_Inr_iff)
  with check_program_unbound_named[of p]
  show "\<exists>e. check_program p = Inl e
          \<and> (\<forall>m. e = UnboundVariable m \<longrightarrow> m \<in> set (unbound_references_program p))"
    by auto
  show "check_program p = Inl (UnboundVariable (hd (unbound_references_program p)))"
    if "\<not> has_duplicate_program p"
    using check_program_no_duplicate[OF that] ne by (simp add: verdict_hd)
qed

theorem check_program_rejects_unbound_witness:
  "''f'' \<in> set (unbound_references_program (L3_Program [] (L3_Begin [L3_Reference ''f''] (L3_Immediate 0))))
   \<and> \<not> has_duplicate_program (L3_Program [] (L3_Begin [L3_Reference ''f''] (L3_Immediate 0)))
   \<and> check_program (L3_Program [] (L3_Begin [L3_Reference ''f''] (L3_Immediate 0))) =
       Inl (UnboundVariable ''f'')"
proof -
  let ?p = "L3_Program [] (L3_Begin [L3_Reference ''f''] (L3_Immediate 0))"
  have a: "''f'' \<in> set (unbound_references_program ?p)" by simp
  have b: "\<not> has_duplicate_program ?p" by simp
  from mp[OF conjunct2[OF check_program_rejects_unbound[OF a]] b]
  have "check_program ?p = Inl (UnboundVariable ''f'')" by simp
  with a b show ?thesis by blast
qed

text \<open>
  C8. Every program whose tree contains a \<^verbatim>\<open>Let\<close> or \<^verbatim>\<open>LetRec\<close> with a repeated
  binder name or an \<^verbatim>\<open>Abstract\<close> with a repeated parameter name, or whose own
  parameter list repeats a name, is rejected, wherever the repetition sits in the tree
  and in the list. The \<^verbatim>\<open>LetRec\<close> binding \<^verbatim>\<open>f\<close> twice is rejected as a duplicate
  binder; the payload is the dictionary \<^verbatim>\<open>{"f": 2}\<close>, whose only key is \<^verbatim>\<open>f\<close>.
\<close>

theorem check_program_rejects_duplicates:
  "(has_duplicate_program p \<longrightarrow> (\<exists>e. check_program p = Inl e))
   \<and> check_program
        (L3_Program [''x''] (L3_LetRec [(''f'', L3_Immediate 0), (''f'', L3_Immediate 1)] (L3_Immediate 0))) =
      Inl (DuplicateBinder [(''f'', 2)])"
proof (intro conjI impI)
  show "\<exists>e. check_program p = Inl e" if "has_duplicate_program p"
    using that by (rule has_duplicate_program_rejected)
  show "check_program
        (L3_Program [''x''] (L3_LetRec [(''f'', L3_Immediate 0), (''f'', L3_Immediate 1)] (L3_Immediate 0))) =
      Inl (DuplicateBinder [(''f'', 2)])"
    by (simp add: eval_simps)
qed

theorem check_program_rejects_duplicates_witness:
  "has_duplicate_program
     (L3_Program [''x''] (L3_Begin [L3_Abstract [''y'', ''z'', ''y''] (L3_Immediate 0)] (L3_Reference ''x'')))
   \<and> (\<exists>e. check_program
        (L3_Program [''x''] (L3_Begin [L3_Abstract [''y'', ''z'', ''y''] (L3_Immediate 0)] (L3_Reference ''x''))) = Inl e)"
proof -
  let ?p = "L3_Program [''x''] (L3_Begin [L3_Abstract [''y'', ''z'', ''y''] (L3_Immediate 0)] (L3_Reference ''x''))"
  have a: "has_duplicate_program ?p" by simp
  from mp[OF conjunct1[OF check_program_rejects_duplicates] a] a show ?thesis by blast
qed

section \<open>Properties of the eliminator\<close>

text \<open>
  C2. For every \<^verbatim>\<open>LetRec(bindings, body)\<close> and recursive-name set \<open>R\<close>, the result is a
  target \<^verbatim>\<open>Let\<close> binding each binder name, in binding order, to \<^verbatim>\<open>Allocate(1)\<close>; its
  body is a \<^verbatim>\<open>Begin\<close> whose effects are, in binding order, the stores of each lowered
  value into slot 0 of its binder's cell and whose value is the lowered body, both
  lowered under \<open>R\<close> extended with all binder names. The self-recursive \<^verbatim>\<open>f\<close> of the
  spec lowers to exactly the one-cell allocate/store/load term.
\<close>

theorem eliminate_letrec_term_LetRec:
  "eliminate_letrec_term (L3_LetRec bindings body) R =
     L2_Let (map (\<lambda>name. (name, L2_Allocate 1)) (map fst bindings))
       (L2_Begin
          (map (\<lambda>(name, value). L2_Store (L2_Reference name) 0
                  (eliminate_letrec_term value (R ++ fromkeys (map fst bindings)))) bindings)
          (eliminate_letrec_term body (R ++ fromkeys (map fst bindings))))
   \<and> dom (R ++ fromkeys (map fst bindings)) = dom R \<union> set (map fst bindings)
   \<and> eliminate_letrec_term
        (L3_LetRec [(''f'', L3_Abstract [''x''] (L3_Apply (L3_Reference ''f'') [L3_Reference ''x'']))]
           (L3_Apply (L3_Reference ''f'') [L3_Immediate 0])) Map.empty =
      L2_Let [(''f'', L2_Allocate 1)]
        (L2_Begin
           [L2_Store (L2_Reference ''f'') 0
              (L2_Abstract [''x''] (L2_Apply (L2_Load (L2_Reference ''f'') 0) [L2_Reference ''x'']))]
           (L2_Apply (L2_Load (L2_Reference ''f'') 0) [L2_Immediate 0]))"
proof (intro conjI)
  show "eliminate_letrec_term (L3_LetRec bindings body) R =
     L2_Let (map (\<lambda>name. (name, L2_Allocate 1)) (map fst bindings))
       (L2_Begin
          (map (\<lambda>(name, value). L2_Store (L2_Reference name) 0
                  (eliminate_letrec_term value (R ++ fromkeys (map fst bindings)))) bindings)
          (eliminate_letrec_term body (R ++ fromkeys (map fst bindings))))"
    by (simp add: Let_def case_prod_unfold)
  show "dom (R ++ fromkeys (map fst bindings)) = dom R \<union> set (map fst bindings)"
    by (simp add: dom_fromkeys Un_commute)
  show "eliminate_letrec_term
        (L3_LetRec [(''f'', L3_Abstract [''x''] (L3_Apply (L3_Reference ''f'') [L3_Reference ''x'']))]
           (L3_Apply (L3_Reference ''f'') [L3_Immediate 0])) Map.empty =
      L2_Let [(''f'', L2_Allocate 1)]
        (L2_Begin
           [L2_Store (L2_Reference ''f'') 0
              (L2_Abstract [''x''] (L2_Apply (L2_Load (L2_Reference ''f'') 0) [L2_Reference ''x'']))]
           (L2_Apply (L2_Load (L2_Reference ''f'') 0) [L2_Immediate 0]))"
    by (simp add: Let_def fromkeys_def)
qed

text \<open>
  C4. \<^verbatim>\<open>Reference(name)\<close> lowers to \<^verbatim>\<open>Load(Reference(name), 0)\<close> when the name is in
  the recursive-name set and to \<^verbatim>\<open>Reference(name)\<close> otherwise; under the empty set
  \<^verbatim>\<open>Reference("x")\<close> stays as it is.
\<close>

theorem eliminate_letrec_term_Reference:
  "eliminate_letrec_term (L3_Reference name) R =
     (if name \<in> dom R then L2_Load (L2_Reference name) 0 else L2_Reference name)
   \<and> eliminate_letrec_term (L3_Reference ''x'') Map.empty = L2_Reference ''x''"
  by simp

text \<open>
  C10. An \<^verbatim>\<open>Abstract\<close> never removes its parameters from the recursive-name set: the
  body is lowered under the same \<open>R\<close>, so when a parameter \<open>n\<close> is also in \<open>R\<close>, a
  reference to \<open>n\<close> in the body becomes a load although \<open>n\<close> is rebound there.
\<close>

theorem eliminate_letrec_term_Abstract_keeps_recursive:
  "n \<in> set parameters \<Longrightarrow> n \<in> dom R \<Longrightarrow>
     eliminate_letrec_term (L3_Abstract parameters body) R =
       L2_Abstract parameters (eliminate_letrec_term body R)
     \<and> eliminate_letrec_term (L3_Abstract parameters (L3_Reference n)) R =
       L2_Abstract parameters (L2_Load (L2_Reference n) 0)"
  by simp

theorem eliminate_letrec_term_Abstract_keeps_recursive_witness:
  "''n'' \<in> set [''n''] \<and> ''n'' \<in> dom [''n'' \<mapsto> ()] \<and>
   eliminate_letrec_term (L3_Abstract [''n''] (L3_Reference ''n'')) [''n'' \<mapsto> ()] =
     L2_Abstract [''n''] (L2_Load (L2_Reference ''n'') 0)"
proof -
  have a: "''n'' \<in> set [''n'']" by simp
  have b: "''n'' \<in> dom [''n'' \<mapsto> ()]" by simp
  from conjunct2[OF eliminate_letrec_term_Abstract_keeps_recursive[OF a b, of "L3_Immediate 0"]] a b
  show ?thesis by blast
qed

text \<open>
  C3. For every program the checker accepts, the eliminator returns a target program
  (it is a total function: its recursion is on the size of the term), with the same
  parameters, whose term tree contains no \<^verbatim>\<open>LetRec\<close> node. The target term is built
  from the constructors of \<^verbatim>\<open>L2\<close> only, and \<^verbatim>\<open>L2\<close> has no \<^verbatim>\<open>LetRec\<close>; read as a
  source term, the result has none.
\<close>

theorem eliminate_letrec_program_no_letrec:
  "check_program p = Inr () \<Longrightarrow>
     \<exists>q. eliminate_letrec_program p = q \<and> L2_parameters q = L3_parameters p
          \<and> \<not> has_letrec (as_L3 (L2_body q))"
  by (cases p) (simp add: no_letrec_as_L3)

theorem eliminate_letrec_program_no_letrec_witness:
  "check_program
     (L3_Program [''x'']
        (L3_LetRec [(''f'', L3_Abstract [''y''] (L3_Apply (L3_Reference ''f'') [L3_Reference ''y'']))]
           (L3_Apply (L3_Reference ''f'') [L3_Reference ''x'']))) = Inr ()
   \<and> \<not> has_letrec (as_L3 (L2_body (eliminate_letrec_program
     (L3_Program [''x'']
        (L3_LetRec [(''f'', L3_Abstract [''y''] (L3_Apply (L3_Reference ''f'') [L3_Reference ''y'']))]
           (L3_Apply (L3_Reference ''f'') [L3_Reference ''x'']))))))"
proof -
  let ?p = "L3_Program [''x'']
        (L3_LetRec [(''f'', L3_Abstract [''y''] (L3_Apply (L3_Reference ''f'') [L3_Reference ''y'']))]
           (L3_Apply (L3_Reference ''f'') [L3_Reference ''x'']))"
  have a: "check_program ?p = Inr ()" by (simp add: eval_simps)
  from eliminate_letrec_program_no_letrec[OF a] have "\<not> has_letrec (as_L3 (L2_body (eliminate_letrec_program ?p)))" by blast
  with a show ?thesis by blast
qed

text \<open>
  C9. Lowering a term that contains no \<^verbatim>\<open>LetRec\<close> under the empty recursive-name set,
  as \<^verbatim>\<open>eliminate_letrec_program\<close> does, gives the same term in the target language:
  every variant, field and sequence order is preserved and no \<^verbatim>\<open>Load\<close> is inserted.
\<close>

theorem eliminate_letrec_term_no_letrec_identity:
  "\<not> has_letrec t \<Longrightarrow>
     as_L3 (eliminate_letrec_term t Map.empty) = t
     \<and> as_L3 (L2_body (eliminate_letrec_program (L3_Program parameters t))) = t
     \<and> L2_parameters (eliminate_letrec_program (L3_Program parameters t)) = parameters"
  by (simp add: eliminate_no_letrec)

theorem eliminate_letrec_term_no_letrec_identity_witness:
  "\<not> has_letrec
      (L3_Let [(''a'', L3_Immediate 1), (''b'', L3_Immediate 2)]
         (L3_Begin [L3_Reference ''a'', L3_Reference ''b'']
            (L3_Apply (L3_Reference ''a'') [L3_Reference ''b'', L3_Reference ''a''])))
   \<and> as_L3 (eliminate_letrec_term
      (L3_Let [(''a'', L3_Immediate 1), (''b'', L3_Immediate 2)]
         (L3_Begin [L3_Reference ''a'', L3_Reference ''b'']
            (L3_Apply (L3_Reference ''a'') [L3_Reference ''b'', L3_Reference ''a'']))) Map.empty) =
      (L3_Let [(''a'', L3_Immediate 1), (''b'', L3_Immediate 2)]
         (L3_Begin [L3_Reference ''a'', L3_Reference ''b'']
            (L3_Apply (L3_Reference ''a'') [L3_Reference ''b'', L3_Reference ''a''])))"
proof -
  let ?t = "L3_Let [(''a'', L3_Immediate 1), (''b'', L3_Immediate 2)]
         (L3_Begin [L3_Reference ''a'', L3_Reference ''b'']
            (L3_Apply (L3_Reference ''a'') [L3_Reference ''b'', L3_Reference ''a'']))"
  have a: "\<not> has_letrec ?t" by simp
  from conjunct1[OF eliminate_letrec_term_no_letrec_identity[OF a, of "[]"]] a show ?thesis by blast
qed

end
